theory Spec2Isabelle
  imports Main "HOL-Library.Word"
begin

section \<open>Go strings and the library functions the program calls\<close>

text \<open>
  A Go string is a sequence of bytes, and every index and length in the program counts
  bytes: a \<open>string\<close> (a list of 8-bit characters) is the same thing. Go's \<open>int\<close> is
  modelled by \<open>int\<close>: every integer the program computes is \<open>-1\<close> or an offset into a
  string, far from the 64-bit bounds.

  A runtime panic (a slice or an index out of range) is the error \<open>Panic\<close>, so that a
  function that can panic has a branch for it. \<open>NewtError\<close> is the program's own error
  (\<open>util.NewNewtError\<close>), \<open>OSError\<close> an error of the operating system.
\<close>

datatype error = NewtError string | OSError string | Panic

text \<open>\<open>strings.HasPrefix\<close>: \<open>len(s) >= len(prefix) && s[:len(prefix)] == prefix\<close>.\<close>

definition HasPrefix :: "string \<Rightarrow> string \<Rightarrow> bool" where
  "HasPrefix s pre = (length pre \<le> length s \<and> take (length pre) s = pre)"

text \<open>\<open>strings.HasSuffix\<close>: \<open>len(s) >= len(suffix) && s[len(s)-len(suffix):] == suffix\<close>.\<close>

definition HasSuffix :: "string \<Rightarrow> string \<Rightarrow> bool" where
  "HasSuffix s suf = (length suf \<le> length s \<and> drop (length s - length suf) s = suf)"

text \<open>\<open>strings.TrimPrefix\<close> and \<open>strings.TrimSuffix\<close> remove the affix once, when it is there.\<close>

definition TrimPrefix :: "string \<Rightarrow> string \<Rightarrow> string" where
  "TrimPrefix s pre = (if HasPrefix s pre then drop (length pre) s else s)"

definition TrimSuffix :: "string \<Rightarrow> string \<Rightarrow> string" where
  "TrimSuffix s suf = (if HasSuffix s suf then take (length s - length suf) s else s)"

text \<open>\<open>strings.Index\<close>: the offset of the first occurrence of \<open>substr\<close> in \<open>s\<close>, or \<open>-1\<close>.\<close>

fun Index :: "string \<Rightarrow> string \<Rightarrow> int" where
  "Index [] substr = (if substr = [] then 0 else - 1)"
| "Index (c # cs) substr =
     (if HasPrefix (c # cs) substr then 0
      else (let r = Index cs substr in if r < 0 then - 1 else r + 1))"

text \<open>
  The slice expression \<open>s[lo:hi]\<close> panics unless \<open>0 <= lo <= hi <= len(s)\<close>;
  \<open>s[lo:]\<close> is \<open>s[lo:len(s)]\<close> and \<open>s[:hi]\<close> is \<open>s[0:hi]\<close>.
\<close>

definition slice :: "string \<Rightarrow> int \<Rightarrow> int \<Rightarrow> string option" where
  "slice s lo hi =
     (if 0 \<le> lo \<and> lo \<le> hi \<and> hi \<le> int (length s)
      then Some (take (nat (hi - lo)) (drop (nat lo) s)) else None)"

definition slice_from :: "string \<Rightarrow> int \<Rightarrow> string option" where
  "slice_from s lo = slice s lo (int (length s))"

definition slice_to :: "string \<Rightarrow> int \<Rightarrow> string option" where
  "slice_to s hi = slice s 0 hi"

text \<open>The index expression \<open>a[i]\<close> on a slice of strings panics out of range.\<close>

definition index :: "'a list \<Rightarrow> nat \<Rightarrow> 'a option" where
  "index a i = (if i < length a then Some (a ! i) else None)"

text \<open>
  \<open>strings.SplitN(s, sep, n)\<close> for \<open>n > 0\<close> and a non-empty \<open>sep\<close>, as the library's
  \<open>genSplit\<close> computes it: \<open>n\<close> is capped at \<open>len(s) + 1\<close>, then up to \<open>n - 1\<close> times the
  text before the next separator is cut off, and what is left is the last element.
  (The program's only call passes \<open>"/"\<close> and \<open>2\<close>; the library's branches for an empty
  separator and for \<open>n <= 0\<close> are not modelled.)
\<close>

fun genSplit :: "nat \<Rightarrow> string \<Rightarrow> string \<Rightarrow> string list" where
  "genSplit 0 s sep = [s]"
| "genSplit (Suc k) s sep =
     (let m = Index s sep in
      if m < 0 then [s]
      else take (nat m) s # genSplit k (drop (nat m + length sep) s) sep)"

definition SplitN :: "string \<Rightarrow> string \<Rightarrow> nat \<Rightarrow> string list" where
  "SplitN s sep n = genSplit (min n (length s + 1) - 1) s sep"

section \<open>newtutil: versions\<close>

text \<open>The three fields are \<open>int64\<close>: 64-bit words read as two's complement by \<open>sint\<close>.\<close>

record Version =
  Major :: "64 word"
  Minor :: "64 word"
  Revision :: "64 word"

definition VerCmp :: "Version \<Rightarrow> Version \<Rightarrow> 64 word" where
  "VerCmp v1 v2 =
     (if Major v1 - Major v2 \<noteq> 0 then Major v1 - Major v2
      else if Minor v1 - Minor v2 \<noteq> 0 then Minor v1 - Minor v2
      else if Revision v1 - Revision v2 \<noteq> 0 then Revision v1 - Revision v2
      else 0)"

section \<open>newtutil: package strings and repository designators\<close>

definition ParsePackageString :: "string \<Rightarrow> error + string \<times> string" where
  "ParsePackageString pkgStr0 =
     (let pkgStr = TrimSuffix pkgStr0 ''/'' in
      if HasPrefix pkgStr ''@'' then
        (case slice_from pkgStr 1 of
           None \<Rightarrow> Inl Panic
         | Some rest \<Rightarrow>
             (let nameParts = SplitN rest ''/'' 2 in
              if length nameParts = 1 then
                Inl (NewtError
                  (''Invalid package string; contains repo but no package name: '' @ pkgStr))
              else
                (case index nameParts 0 of
                   None \<Rightarrow> Inl Panic
                 | Some repoName \<Rightarrow>
                     (case index nameParts 1 of
                        None \<Rightarrow> Inl Panic
                      | Some pkgName \<Rightarrow> Inr (repoName, pkgName)))))
      else Inr ('''', pkgStr))"

definition FindRepoDesignator :: "string \<Rightarrow> error + int \<times> int" where
  "FindRepoDesignator s =
     (let start = Index s ''@'' in
      if start = - 1 then Inr (- 1, - 1)
      else
        (case slice_from s start of
           None \<Rightarrow> Inl Panic
         | Some rest \<Rightarrow>
             (let len = Index rest ''/'' in
              if len = - 1 then Inr (- 1, - 1) else Inr (start, len))))"

definition BuildPackageString :: "string \<Rightarrow> string \<Rightarrow> string" where
  "BuildPackageString repoName pkgName =
     (if repoName \<noteq> '''' then ''@'' @ repoName @ ''/'' @ pkgName else pkgName)"

text \<open>
  The project (\<open>interfaces.GetProject()\<close>) is declared outside these files: it is a
  parameter, with the two methods the function calls.
\<close>

record project =
  FindRepoPath :: "string \<Rightarrow> string"
  Path :: string

definition ReplaceRepoDesignators :: "project \<Rightarrow> string \<Rightarrow> error + string \<times> bool" where
  "ReplaceRepoDesignators proj s =
     (case FindRepoDesignator s of
        Inl e \<Rightarrow> Inl e
      | Inr (start, len) \<Rightarrow>
          if start = - 1 then Inr (s, False)
          else
            (case slice s (start + 1) (start + len) of
               None \<Rightarrow> Inl Panic
             | Some repoName \<Rightarrow>
                 (let repoPath = FindRepoPath proj repoName in
                  if repoPath = '''' then Inr (s, False)
                  else
                    (let relRepoPath = TrimPrefix repoPath (Path proj @ ''/'') in
                     case slice_to s start of
                       None \<Rightarrow> Inl Panic
                     | Some before \<Rightarrow>
                         (case slice_from s (start + len) of
                            None \<Rightarrow> Inl Panic
                          | Some after \<Rightarrow> Inr (before @ relRepoPath @ after, True))))))"

section \<open>cli: the downloader\<close>

text \<open>
  The downloader works on the world outside the program through four operations:
  \<open>ioutil.TempDir\<close>, \<open>ShellCommand\<close>, \<open>os.RemoveAll\<close> and \<open>CopyFile\<close>
  (\<open>ShellCommand\<close> and \<open>CopyFile\<close> belong to package \<open>cli\<close> but are declared outside
  these files). They are parameters: each takes the world, of an arbitrary type \<open>'w\<close>,
  and returns what the Go function returns (a \<open>nil\<close> error is \<open>None\<close>) with the world
  after the call.
\<close>

record 'w system =
  TempDir :: "string \<Rightarrow> string \<Rightarrow> 'w \<Rightarrow> (string \<times> error option) \<times> 'w"
  ShellCommand :: "string \<Rightarrow> 'w \<Rightarrow> (string \<times> error option) \<times> 'w"
  RemoveAll :: "string \<Rightarrow> 'w \<Rightarrow> error option \<times> 'w"
  CopyFile :: "string \<Rightarrow> string \<Rightarrow> 'w \<Rightarrow> error option \<times> 'w"

datatype call =
    TempDirCall string string
  | ShellCommandCall string
  | RemoveAllCall string
  | CopyFileCall string string

text \<open>
  \<open>Repos\<close> is a Go map from strings to strings. \<open>NewDownloader\<close> makes it empty; the
  \<open>nil\<close> map of a \<open>Downloader\<close> made without \<open>NewDownloader\<close> is not modelled.
\<close>

record Downloader =
  Repos :: "string \<rightharpoonup> string"

text \<open>
  The state of a run: the downloader, the world, and the history of the calls made to
  the world so far (oldest first). The history is there to count calls; no function
  reads it.
\<close>

record 'w state =
  dl :: Downloader
  world :: 'w
  calls :: "call list"

definition call_TempDir ::
  "'w system \<Rightarrow> string \<Rightarrow> string \<Rightarrow> 'w state \<Rightarrow> (string \<times> error option) \<times> 'w state" where
  "call_TempDir sys dir pre st =
     (let (r, w) = TempDir sys dir pre (world st) in
      (r, st\<lparr>world := w, calls := calls st @ [TempDirCall dir pre]\<rparr>))"

definition call_ShellCommand ::
  "'w system \<Rightarrow> string \<Rightarrow> 'w state \<Rightarrow> (string \<times> error option) \<times> 'w state" where
  "call_ShellCommand sys cmd st =
     (let (r, w) = ShellCommand sys cmd (world st) in
      (r, st\<lparr>world := w, calls := calls st @ [ShellCommandCall cmd]\<rparr>))"

definition call_RemoveAll ::
  "'w system \<Rightarrow> string \<Rightarrow> 'w state \<Rightarrow> error option \<times> 'w state" where
  "call_RemoveAll sys path st =
     (let (r, w) = RemoveAll sys path (world st) in
      (r, st\<lparr>world := w, calls := calls st @ [RemoveAllCall path]\<rparr>))"

definition call_CopyFile ::
  "'w system \<Rightarrow> string \<Rightarrow> string \<Rightarrow> 'w state \<Rightarrow> error option \<times> 'w state" where
  "call_CopyFile sys src dst st =
     (let (r, w) = CopyFile sys src dst (world st) in
      (r, st\<lparr>world := w, calls := calls st @ [CopyFileCall src dst]\<rparr>))"

definition NewDownloader :: "Downloader \<times> error option" where
  "NewDownloader = (\<lparr>Repos = Map.empty\<rparr>, None)"

text \<open>
  \<open>gitClone\<close> runs \<open>git clone -b branch url dest\<close> and then removes \<open>dest/.git/\<close>; the
  first error ends it.
\<close>

definition gitClone ::
  "'w system \<Rightarrow> string \<Rightarrow> string \<Rightarrow> string \<Rightarrow> 'w state \<Rightarrow> error option \<times> 'w state" where
  "gitClone sys url branch dest st =
     (let ((out, err), st1) =
            call_ShellCommand sys (''git clone -b '' @ branch @ '' '' @ url @ '' '' @ dest) st in
      case err of
        Some e \<Rightarrow> (Some e, st1)
      | None \<Rightarrow>
          (let (err2, st2) = call_RemoveAll sys (dest @ ''/.git/'') st1 in
           case err2 of
             Some e \<Rightarrow> (Some e, st2)
           | None \<Rightarrow> (None, st2)))"

text \<open>
  \<open>GetRepo\<close> returns the Go pair: a path and an error that may be \<open>nil\<close>. Its three
  \<open>return\<close> statements after the cache lookup are the three inner branches, in the
  source's order: \<open>return "", err\<close> after \<open>TempDir\<close>, \<open>return "", nil\<close> after
  \<open>gitClone\<close>, and \<open>return dir, nil\<close> once the key is stored.
\<close>

definition GetRepo ::
  "'w system \<Rightarrow> string \<Rightarrow> string \<Rightarrow> 'w state \<Rightarrow> (string \<times> error option) \<times> 'w state" where
  "GetRepo sys repoUrl branch st =
     (case Repos (dl st) (repoUrl @ branch) of
        Some dir \<Rightarrow> ((dir, None), st)
      | None \<Rightarrow>
          (let ((dir, err), st1) = call_TempDir sys '''' ''newtrepo'' st in
           case err of
             Some e \<Rightarrow> (('''', Some e), st1)
           | None \<Rightarrow>
               (let (cerr, st2) = gitClone sys repoUrl branch dir st1 in
                case cerr of
                  Some e \<Rightarrow> (('''', None), st2)
                | None \<Rightarrow>
                    ((dir, None),
                     st2\<lparr>dl := (dl st2)\<lparr>Repos := (Repos (dl st2))(repoUrl @ branch \<mapsto> dir)\<rparr>\<rparr>))))"

definition DownloadFile ::
  "'w system \<Rightarrow> string \<Rightarrow> string \<Rightarrow> string \<Rightarrow> string \<Rightarrow> 'w state \<Rightarrow> error option \<times> 'w state" where
  "DownloadFile sys repoUrl branch filePath destPath st =
     (let ((repoDir, err), st1) = GetRepo sys repoUrl branch st in
      case err of
        Some e \<Rightarrow> (Some e, st1)
      | None \<Rightarrow>
          (let (cerr, st2) = call_CopyFile sys (repoDir @ ''/'' @ filePath) destPath st1 in
           case cerr of
             Some e \<Rightarrow> (Some e, st2)
           | None \<Rightarrow> (None, st2)))"

text \<open>The number of times the clone command has been run.\<close>

fun is_clone :: "call \<Rightarrow> bool" where
  "is_clone (ShellCommandCall cmd) = True"
| "is_clone c = False"

definition clone_calls :: "'w state \<Rightarrow> nat" where
  "clone_calls st = length (filter is_clone (calls st))"

section \<open>The reference algorithm of the specification and example inputs\<close>

text \<open>
  The parsing algorithm as the specification words it: strip one trailing \<open>/\<close>; if what
  remains starts with \<open>@\<close>, split the text after the \<open>@\<close> at its first \<open>/\<close>, and fail
  (\<open>None\<close>) when it has none; otherwise the repository name is empty and whatever remains
  is the package path.
\<close>

definition parsePackageString_ref :: "string \<Rightarrow> (string \<times> string) option" where
  "parsePackageString_ref input =
     (let s = (if input \<noteq> [] \<and> last input = CHR ''/'' then butlast input else input) in
      case s of
        [] \<Rightarrow> Some ('''', s)
      | c # rest \<Rightarrow>
          if c = CHR ''@'' then
            (if CHR ''/'' \<in> set rest
             then Some (takeWhile (\<lambda>x. x \<noteq> CHR ''/'') rest,
                        tl (dropWhile (\<lambda>x. x \<noteq> CHR ''/'') rest))
             else None)
          else Some ('''', s))"

text \<open>A project rooted at \<open>/proj\<close> that knows the one repository \<open>repoX\<close>.\<close>

definition example_project :: project where
  "example_project =
     \<lparr>FindRepoPath = (\<lambda>name. if name = ''repoX'' then ''/proj/repoX'' else ''''),
      Path = ''/proj''\<rparr>"

text \<open>
  Worlds for the examples: the world is the number of temporary directories made so far.
  In \<open>example_system ok\<close> the clone command succeeds when \<open>ok\<close> and fails otherwise; in
  \<open>no_tmp_system\<close> no temporary directory can be made.
\<close>

definition example_system :: "bool \<Rightarrow> nat system" where
  "example_system ok =
     \<lparr>TempDir = (\<lambda>dir pre n. ((''/tmp/'' @ pre @ replicate n (CHR ''1''), None), Suc n)),
      ShellCommand = (\<lambda>cmd n.
        if ok then (('''', None), n)
        else ((''fatal: repository not found'', Some (NewtError ''exit status 128'')), n)),
      RemoveAll = (\<lambda>path n. (None, n)),
      CopyFile = (\<lambda>src dst n. (None, n))\<rparr>"

definition no_tmp_system :: "nat system" where
  "no_tmp_system =
     \<lparr>TempDir = (\<lambda>dir pre n. (('''', Some (OSError ''permission denied'')), n)),
      ShellCommand = (\<lambda>cmd n. (('''', None), n)),
      RemoveAll = (\<lambda>path n. (None, n)),
      CopyFile = (\<lambda>src dst n. (None, n))\<rparr>"

definition init_state :: "nat state" where
  "init_state = \<lparr>dl = fst NewDownloader, world = 0, calls = []\<rparr>"

section \<open>Facts about the string functions\<close>

lemma HasPrefix_single: "HasPrefix s [c] = (case s of [] \<Rightarrow> False | x # _ \<Rightarrow> x = c)"
  by (cases s) (auto simp: HasPrefix_def)

lemma HasSuffix_single: "HasSuffix s [c] = (s \<noteq> [] \<and> last s = c)"
proof (cases s rule: rev_cases)
  case Nil
  then show ?thesis by (simp add: HasSuffix_def)
next
  case (snoc ys y)
  then show ?thesis by (auto simp: HasSuffix_def)
qed

lemma TrimSuffix_single:
  "TrimSuffix s [c] = (if s \<noteq> [] \<and> last s = c then butlast s else s)"
  by (simp add: TrimSuffix_def HasSuffix_single butlast_conv_take)

lemma Index_single:
  "Index s [c] = (if c \<in> set s then int (length (takeWhile (\<lambda>x. x \<noteq> c) s)) else - 1)"
  by (induction s) (auto simp: HasPrefix_single Let_def)

lemma slice_from_in_range:
  "n \<le> length s \<Longrightarrow> slice_from s (int n) = Some (drop n s)"
  by (simp add: slice_from_def slice_def)

lemma drop_takeWhile_length: "drop (length (takeWhile P s)) s = dropWhile P s"
  by (induction s) auto

lemma take_takeWhile_length: "take (length (takeWhile P s)) s = takeWhile P s"
  by (induction s) auto

lemma genSplit_single_1:
  "genSplit (Suc 0) s [c] =
     (if c \<in> set s
      then [takeWhile (\<lambda>x. x \<noteq> c) s, tl (dropWhile (\<lambda>x. x \<noteq> c) s)]
      else [s])"
proof (cases "c \<in> set s")
  case True
  have "drop (length (takeWhile (\<lambda>x. x \<noteq> c) s) + 1) s = tl (dropWhile (\<lambda>x. x \<noteq> c) s)"
    by (metis drop_takeWhile_length drop_Suc tl_drop Suc_eq_plus1)
  with True show ?thesis
    by (simp add: Index_single take_takeWhile_length)
next
  case False
  then show ?thesis by (simp add: Index_single)
qed

lemma SplitN_single_2:
  "SplitN s [c] 2 =
     (if c \<in> set s
      then [takeWhile (\<lambda>x. x \<noteq> c) s, tl (dropWhile (\<lambda>x. x \<noteq> c) s)]
      else [s])"
proof (cases s)
  case Nil
  then show ?thesis by (simp add: SplitN_def)
next
  case (Cons a as)
  then have "min 2 (length s + 1) - 1 = Suc 0" by simp
  then have "SplitN s [c] 2 = genSplit (Suc 0) s [c]" by (simp add: SplitN_def)
  then show ?thesis by (simp only: genSplit_single_1)
qed

section \<open>Package strings, designators and versions\<close>

lemma ParsePackageString_trimmed:
  "ParsePackageString s =
     (let t = TrimSuffix s ''/'' in
      case t of
        [] \<Rightarrow> Inr ('''', t)
      | c # rest \<Rightarrow>
          if c = CHR ''@'' then
            (if CHR ''/'' \<in> set rest
             then Inr (takeWhile (\<lambda>x. x \<noteq> CHR ''/'') rest,
                       tl (dropWhile (\<lambda>x. x \<noteq> CHR ''/'') rest))
             else Inl (NewtError
               (''Invalid package string; contains repo but no package name: '' @ t)))
          else Inr ('''', t))"
proof (cases "TrimSuffix s ''/''")
  case Nil
  then show ?thesis
    by (simp add: ParsePackageString_def HasPrefix_single)
next
  case (Cons c rest)
  have sl: "slice_from (x # rest) 1 = Some rest" for x :: char
    using slice_from_in_range [of 1 "x # rest"] by simp
  show ?thesis
    by (simp add: ParsePackageString_def Cons HasPrefix_single sl SplitN_single_2 index_def Let_def)
qed

text \<open>
  Claim C6. On every input string \<open>ParsePackageString\<close> does what the reference
  algorithm does: it returns the pair the reference algorithm returns, and fails with the
  invalid-package-string error (which carries the input without its trailing \<open>/\<close>) where
  the reference algorithm fails. \<open>"@foo"\<close> and \<open>"@foo/"\<close> fail, and \<open>"@foo/bar/baz"\<close>
  gives \<open>("foo", "bar/baz")\<close>.
\<close>

theorem ParsePackageString_refines_reference: "ParsePackageString s =
     (case parsePackageString_ref s of
        None \<Rightarrow> Inl (NewtError
          (''Invalid package string; contains repo but no package name: '' @ TrimSuffix s ''/''))
      | Some p \<Rightarrow> Inr p)
   \<and> ParsePackageString ''@foo'' = Inl (NewtError
          ''Invalid package string; contains repo but no package name: @foo'')
   \<and> ParsePackageString ''@foo/'' = Inl (NewtError
          ''Invalid package string; contains repo but no package name: @foo'')
   \<and> ParsePackageString ''@foo/bar/baz'' = Inr (''foo'', ''bar/baz'')"
proof -
  have general: "ParsePackageString s =
     (case parsePackageString_ref s of
        None \<Rightarrow> Inl (NewtError
          (''Invalid package string; contains repo but no package name: '' @ TrimSuffix s ''/''))
      | Some p \<Rightarrow> Inr p)" for s
    unfolding ParsePackageString_trimmed parsePackageString_ref_def TrimSuffix_single
    by (simp add: Let_def split: list.split)
  have e1: "ParsePackageString ''@foo'' = Inl (NewtError
          ''Invalid package string; contains repo but no package name: @foo'')"
    by (simp add: ParsePackageString_trimmed TrimSuffix_single)
  have e2: "ParsePackageString ''@foo/'' = Inl (NewtError
          ''Invalid package string; contains repo but no package name: @foo'')"
    by (simp add: ParsePackageString_trimmed TrimSuffix_single)
  have e3: "ParsePackageString ''@foo/bar/baz'' = Inr (''foo'', ''bar/baz'')"
    by (simp add: ParsePackageString_trimmed TrimSuffix_single)
  from general [of s] e1 e2 e3 show ?thesis by blast
qed

lemma FindRepoDesignator_char:
  "FindRepoDesignator s =
     (if CHR ''@'' \<in> set s \<and> CHR ''/'' \<in> set (dropWhile (\<lambda>x. x \<noteq> CHR ''@'') s)
      then Inr (int (length (takeWhile (\<lambda>x. x \<noteq> CHR ''@'') s)),
            int (length (takeWhile (\<lambda>x. x \<noteq> CHR ''/'') (dropWhile (\<lambda>x. x \<noteq> CHR ''@'') s))))
      else Inr (- 1, - 1))"
proof (cases "CHR ''@'' \<in> set s")
  case False
  then show ?thesis by (simp add: FindRepoDesignator_def Index_single Let_def)
next
  case True
  let ?n = "length (takeWhile (\<lambda>x. x \<noteq> CHR ''@'') s)"
  have "?n \<le> length s" by (rule length_takeWhile_le)
  then have sl: "slice_from s (int ?n) = Some (dropWhile (\<lambda>x. x \<noteq> CHR ''@'') s)"
    by (simp add: slice_from_in_range drop_takeWhile_length)
  from True show ?thesis
    by (simp add: FindRepoDesignator_def Index_single sl Let_def)
qed

text \<open>
  Claim C9. \<open>FindRepoDesignator\<close> never panics. When \<open>s\<close> has an \<open>@\<close> and a \<open>/\<close> at or
  after its first \<open>@\<close>, the result is the offset of the first \<open>@\<close> and the offset of the
  first such \<open>/\<close> counted from that \<open>@\<close>; in every other case, and in no other case, it
  is \<open>(-1, -1)\<close>.
\<close>

theorem FindRepoDesignator_first_at_first_slash:
  "FindRepoDesignator s =
     (if CHR ''@'' \<in> set s \<and> CHR ''/'' \<in> set (dropWhile (\<lambda>x. x \<noteq> CHR ''@'') s)
      then Inr (int (length (takeWhile (\<lambda>x. x \<noteq> CHR ''@'') s)),
            int (length (takeWhile (\<lambda>x. x \<noteq> CHR ''/'') (dropWhile (\<lambda>x. x \<noteq> CHR ''@'') s))))
      else Inr (- 1, - 1))
   \<and> (FindRepoDesignator s = Inr (- 1, - 1)) =
       (\<not> (CHR ''@'' \<in> set s \<and> CHR ''/'' \<in> set (dropWhile (\<lambda>x. x \<noteq> CHR ''@'') s)))"
  by (simp add: FindRepoDesignator_char)

lemma VerCmp_refl: "VerCmp v v = 0"
  by (simp add: VerCmp_def)

text \<open>
  Claim C5, at the input where the code departs from it: comparing a version whose major
  number is the least \<open>int64\<close> with version \<open>0.0.0\<close> gives a negative result in both
  orders, because the subtraction wraps around.
\<close>

theorem VerCmp_negative_both_ways:
  "sint (VerCmp \<lparr>Major = - 9223372036854775808, Minor = 0, Revision = 0\<rparr>
                \<lparr>Major = 0, Minor = 0, Revision = 0\<rparr>) < 0
   \<and> sint (VerCmp \<lparr>Major = 0, Minor = 0, Revision = 0\<rparr>
                  \<lparr>Major = - 9223372036854775808, Minor = 0, Revision = 0\<rparr>) < 0"
  by (simp add: VerCmp_def)

lemma sint_bounds64: "- 9223372036854775808 \<le> sint (r :: 64 word) \<and> sint r < 9223372036854775808"
  using sint_ge [of r] sint_lt [of r] by simp

lemma sint_min64: "(sint (r :: 64 word) = - 9223372036854775808) = (r = - 9223372036854775808)"
proof
  assume "sint r = - 9223372036854775808"
  then have "sint r = sint (- 9223372036854775808 :: 64 word)" by simp
  then show "r = - 9223372036854775808" by (rule signed_word_eqI)
next
  assume "r = - 9223372036854775808"
  then show "sint r = - 9223372036854775808" by simp
qed

lemma sint_neg64:
  fixes r :: "64 word"
  assumes "r \<noteq> - 9223372036854775808"
  shows "sint (- r) = - sint r"
proof -
  have "sint r \<noteq> - 9223372036854775808" using assms by (simp add: sint_min64)
  with sint_bounds64 [of r] have b: "- (2 ^ 63) \<le> - sint r" "- sint r < 2 ^ 63" by simp_all
  have "sint (- r) = signed_take_bit 63 (- sint r)"
    by (simp add: sint_word_ariths)
  also have "\<dots> = - sint r"
    using b by (simp add: signed_take_bit_int_eq_self)
  finally show ?thesis .
qed

lemma VerCmp_flip: "VerCmp b a = - VerCmp a b"
  by (simp add: VerCmp_def)

lemma VerCmp_antisym_no_overflow:
  assumes "VerCmp a b \<noteq> - 9223372036854775808"
  shows "(sint (VerCmp b a) < 0) = (0 < sint (VerCmp a b))
       \<and> (0 < sint (VerCmp b a)) = (sint (VerCmp a b) < 0)
       \<and> (VerCmp b a = 0) = (VerCmp a b = 0)"
proof -
  define r where "r = VerCmp a b"
  have flip: "VerCmp b a = - r" unfolding r_def by (rule VerCmp_flip)
  have "r \<noteq> - 9223372036854775808" using assms by (simp add: r_def)
  then have "sint (- r) = - sint r" by (rule sint_neg64)
  then have "(sint (- r) < 0) = (0 < sint r) \<and> (0 < sint (- r)) = (sint r < 0) \<and> (- r = 0) = (r = 0)"
    by simp
  then show ?thesis unfolding flip unfolding r_def .
qed

lemma split_at_first:
  assumes "c \<in> set xs"
  shows "xs = takeWhile (\<lambda>x. x \<noteq> c) xs @ c # tl (dropWhile (\<lambda>x. x \<noteq> c) xs)"
proof -
  from assms have ne: "dropWhile (\<lambda>x. x \<noteq> c) xs \<noteq> []" by simp
  then have "hd (dropWhile (\<lambda>x. x \<noteq> c) xs) = c"
    using hd_dropWhile [of "\<lambda>x. x \<noteq> c" xs] by simp
  with ne have "dropWhile (\<lambda>x. x \<noteq> c) xs = c # tl (dropWhile (\<lambda>x. x \<noteq> c) xs)"
    by (cases "dropWhile (\<lambda>x. x \<noteq> c) xs") simp_all
  then show ?thesis
    using takeWhile_dropWhile_id [of "\<lambda>x. x \<noteq> c" xs] by simp
qed

lemma takeWhile_no_sep: "c \<notin> set (takeWhile (\<lambda>x. x \<noteq> c) xs)"
  by (auto dest: set_takeWhileD)

lemma ParsePackageString_Inr_shape:
  assumes "ParsePackageString s = Inr (a, b)"
  shows "CHR ''/'' \<notin> set a \<and>
         (TrimSuffix s ''/'' = CHR ''@'' # a @ CHR ''/'' # b
          \<or> (a = [] \<and> TrimSuffix s ''/'' = b \<and> \<not> HasPrefix b ''@''))"
proof (cases "TrimSuffix s ''/''")
  case Nil
  with assms show ?thesis
    by (simp add: ParsePackageString_trimmed HasPrefix_single)
next
  case (Cons c rest)
  show ?thesis
  proof (cases "c = CHR ''@''")
    case False
    with assms Cons have "a = [] \<and> b = c # rest"
      by (simp add: ParsePackageString_trimmed)
    with Cons False show ?thesis
      by (simp add: HasPrefix_single)
  next
    case True
    with assms Cons have sep: "CHR ''/'' \<in> set rest"
      and a: "a = takeWhile (\<lambda>x. x \<noteq> CHR ''/'') rest"
      and b: "b = tl (dropWhile (\<lambda>x. x \<noteq> CHR ''/'') rest)"
      by (auto simp: ParsePackageString_trimmed split: if_splits)
    have rest: "rest = a @ CHR ''/'' # b"
      unfolding a b by (rule split_at_first [OF sep])
    have nosep: "CHR ''/'' \<notin> set a"
      unfolding a by (rule takeWhile_no_sep)
    have "TrimSuffix s ''/'' = CHR ''@'' # a @ CHR ''/'' # b"
      using Cons True rest by simp
    with nosep show ?thesis by simp
  qed
qed

lemma TrimSuffix_id_iff: "(TrimSuffix s [c] = s) = (s = [] \<or> last s \<noteq> c)"
proof (cases "s \<noteq> [] \<and> last s = c")
  case True
  have "butlast s \<noteq> s"
  proof
    assume "butlast s = s"
    with True show False by (cases s rule: rev_cases) simp_all
  qed
  with True show ?thesis by (simp add: TrimSuffix_single)
next
  case False
  then show ?thesis by (auto simp: TrimSuffix_single)
qed

lemma length_TrimSuffix: "length (TrimSuffix s suf) \<le> length s"
  by (simp add: TrimSuffix_def)

lemma roundtrip_holds:
  assumes p: "p \<noteq> []" and r: "CHR ''/'' \<notin> set r" and l: "last p \<noteq> CHR ''/''"
    and h: "r = [] \<longrightarrow> hd p \<noteq> CHR ''@''"
  shows "ParsePackageString (BuildPackageString r p) = Inr (r, p)"
proof (cases "r = []")
  case True
  from p obtain c rest where pc: "p = c # rest" by (cases p) auto
  with h True have "c \<noteq> CHR ''@''" by simp
  moreover from p l have "TrimSuffix p ''/'' = p" by (simp add: TrimSuffix_id_iff)
  ultimately show ?thesis
    using True pc by (simp add: ParsePackageString_trimmed BuildPackageString_def)
next
  case False
  let ?q = "CHR ''@'' # r @ CHR ''/'' # p"
  from p l have "last ?q \<noteq> CHR ''/''" by simp
  then have t: "TrimSuffix ?q ''/'' = ?q" by (simp add: TrimSuffix_id_iff)
  from r have all: "x \<noteq> CHR ''/''" if "x \<in> set r" for x using that by auto
  have tw: "takeWhile (\<lambda>x. x \<noteq> CHR ''/'') (r @ CHR ''/'' # p) = r"
    using all by simp
  have dw: "dropWhile (\<lambda>x. x \<noteq> CHR ''/'') (r @ CHR ''/'' # p) = CHR ''/'' # p"
    using all by simp
  from False have "BuildPackageString r p = ?q" by (simp add: BuildPackageString_def)
  then show ?thesis
    using t tw dw by (simp add: ParsePackageString_trimmed)
qed

lemma roundtrip_only_if:
  assumes p: "p \<noteq> []" and rt: "ParsePackageString (BuildPackageString r p) = Inr (r, p)"
  shows "CHR ''/'' \<notin> set r \<and> last p \<noteq> CHR ''/'' \<and> (r = [] \<longrightarrow> hd p \<noteq> CHR ''@'')"
proof -
  let ?q = "BuildPackageString r p"
  from ParsePackageString_Inr_shape [OF rt]
  have nosep: "CHR ''/'' \<notin> set r"
    and shape: "TrimSuffix ?q ''/'' = CHR ''@'' # r @ CHR ''/'' # p
          \<or> (r = [] \<and> TrimSuffix ?q ''/'' = p \<and> \<not> HasPrefix p ''@'')"
    by simp_all
  have lastq: "last ?q = last p" using p by (simp add: BuildPackageString_def)
  have qne: "?q \<noteq> []" using p by (simp add: BuildPackageString_def)
  show ?thesis
  proof (cases "r = []")
    case True
    then have q: "?q = p" by (simp add: BuildPackageString_def)
    have "length (TrimSuffix p ''/'') \<le> length p" by (rule length_TrimSuffix)
    then have "TrimSuffix p ''/'' \<noteq> CHR ''@'' # r @ CHR ''/'' # p" by auto
    with shape q have tp: "TrimSuffix p ''/'' = p" and np: "\<not> HasPrefix p ''@''" by simp_all
    from tp p have "last p \<noteq> CHR ''/''" by (simp add: TrimSuffix_id_iff)
    moreover from np p have "hd p \<noteq> CHR ''@''"
      by (cases p) (simp_all add: HasPrefix_single)
    ultimately show ?thesis using nosep by simp
  next
    case False
    then have q: "?q = CHR ''@'' # r @ CHR ''/'' # p" by (simp add: BuildPackageString_def)
    have "TrimSuffix ?q ''/'' = ?q"
    proof (rule ccontr)
      assume ne: "TrimSuffix ?q ''/'' \<noteq> ?q"
      with shape q False show False by simp
    qed
    with qne lastq have "last p \<noteq> CHR ''/''" by (simp add: TrimSuffix_id_iff)
    with nosep False show ?thesis by simp
  qed
qed

text \<open>
  Claim C2, amended. For a non-empty package path \<open>p\<close>, parsing the string built from
  \<open>r\<close> and \<open>p\<close> gives back \<open>(r, p)\<close> exactly when \<open>r\<close> has no \<open>/\<close>, \<open>p\<close> does not end
  with \<open>/\<close> and, if \<open>r\<close> is empty, \<open>p\<close> does not start with \<open>@\<close>.
\<close>

theorem ParsePackageString_BuildPackageString_roundtrip:
  assumes "p \<noteq> []"
  shows "(ParsePackageString (BuildPackageString r p) = Inr (r, p)) =
         (CHR ''/'' \<notin> set r \<and> last p \<noteq> CHR ''/'' \<and> (r = [] \<longrightarrow> hd p \<noteq> CHR ''@''))"
  using assms roundtrip_holds [of p r] roundtrip_only_if [of p r] by blast

text \<open>
  Claim C2 as stated fails: a trailing \<open>/\<close> of the package path is lost, a package path
  that starts with \<open>@\<close> under an empty repository name is read as a designator, and a
  repository name with a \<open>/\<close> is cut at it.
\<close>

theorem roundtrip_counterexample:
  "''a/'' \<noteq> '''' \<and> ''@x'' \<noteq> '''' \<and> ''c'' \<noteq> ''''
   \<and> ParsePackageString (BuildPackageString '''' ''a/'') = Inr ('''', ''a'')
   \<and> ParsePackageString (BuildPackageString '''' ''a/'') \<noteq> Inr ('''', ''a/'')
   \<and> ParsePackageString (BuildPackageString '''' ''@x'') =
       Inl (NewtError ''Invalid package string; contains repo but no package name: @x'')
   \<and> ParsePackageString (BuildPackageString '''' ''@x'') \<noteq> Inr ('''', ''@x'')
   \<and> ParsePackageString (BuildPackageString ''a/b'' ''c'') = Inr (''a'', ''b/c'')
   \<and> ParsePackageString (BuildPackageString ''a/b'' ''c'') \<noteq> Inr (''a/b'', ''c'')"
  by (simp add: ParsePackageString_trimmed BuildPackageString_def TrimSuffix_single)

theorem ParsePackageString_BuildPackageString_roundtrip_witness:
  "''sensors/bmp280'' \<noteq> ''''
   \<and> (ParsePackageString (BuildPackageString ''driver-repo'' ''sensors/bmp280'')
        = Inr (''driver-repo'', ''sensors/bmp280''))
   \<and> (ParsePackageString (BuildPackageString '''' ''sensors/bmp280'')
        = Inr ('''', ''sensors/bmp280''))"
  using ParsePackageString_BuildPackageString_roundtrip [of "''sensors/bmp280''" "''driver-repo''"]
    ParsePackageString_BuildPackageString_roundtrip [of "''sensors/bmp280''" "''''"]
  by simp

lemma FindRepoDesignator_range:
  assumes "FindRepoDesignator s = Inr (start, len)" and "start \<noteq> - 1"
  shows "0 \<le> start \<and> 1 \<le> len \<and> start + len \<le> int (length s)"
proof -
  let ?d = "dropWhile (\<lambda>x. x \<noteq> CHR ''@'') s"
  from assms have at: "CHR ''@'' \<in> set s" and sep: "CHR ''/'' \<in> set ?d"
    and start: "start = int (length (takeWhile (\<lambda>x. x \<noteq> CHR ''@'') s))"
    and len: "len = int (length (takeWhile (\<lambda>x. x \<noteq> CHR ''/'') ?d))"
    by (auto simp: FindRepoDesignator_char split: if_splits)
  from at have dne: "?d \<noteq> []" by simp
  then have "hd ?d = CHR ''@''" using hd_dropWhile [of "\<lambda>x. x \<noteq> CHR ''@''" s] by simp
  with dne obtain d' where d: "?d = CHR ''@'' # d'" by (cases ?d) auto
  have "1 \<le> length (takeWhile (\<lambda>x. x \<noteq> CHR ''/'') ?d)"
    unfolding d by simp
  moreover have "length (takeWhile (\<lambda>x. x \<noteq> CHR ''/'') ?d) \<le> length ?d"
    by (rule length_takeWhile_le)
  moreover have "length (takeWhile (\<lambda>x. x \<noteq> CHR ''@'') s) + length ?d = length s"
    by (metis length_append takeWhile_dropWhile_id)
  ultimately show ?thesis using start len by simp
qed

lemma FindRepoDesignator_Inr: "\<exists>r. FindRepoDesignator s = Inr r"
  by (simp add: FindRepoDesignator_char)

lemma TrimPrefix_append: "TrimPrefix (pre @ rest) pre = rest"
  by (simp add: TrimPrefix_def HasPrefix_def)

lemma TrimPrefix_no_prefix: "\<not> HasPrefix s pre \<Longrightarrow> TrimPrefix s pre = s"
  by (simp add: TrimPrefix_def)

lemma slices_in_range:
  assumes "0 \<le> start" and "1 \<le> len" and "start + len \<le> int (length s)"
  shows "slice s (start + 1) (start + len) = Some (take (nat (len - 1)) (drop (nat (start + 1)) s))"
    and "slice_to s start = Some (take (nat start) s)"
    and "slice_from s (start + len) = Some (drop (nat (start + len)) s)"
  using assms by (simp_all add: slice_def slice_to_def slice_from_def)

text \<open>
  Claim C7. When \<open>FindRepoDesignator\<close> finds a designator \<open>(start, len)\<close> in \<open>s\<close> and the
  project gives a non-empty path for the repository name \<open>s[start+1 : start+len]\<close>, then
  \<open>ReplaceRepoDesignators\<close> returns \<open>s[:start]\<close>, then that path without the prefix
  \<open>proj.Path() + "/"\<close> (when it has this prefix), then \<open>s[start+len:]\<close>, together with
  \<open>true\<close>; neither slice panics.
\<close>

theorem ReplaceRepoDesignators_splices:
  assumes find: "FindRepoDesignator s = Inr (start, len)" and found: "start \<noteq> - 1"
    and name: "slice s (start + 1) (start + len) = Some repoName"
    and known: "FindRepoPath proj repoName \<noteq> ''''"
  shows "slice_to s start = Some (take (nat start) s)
       \<and> slice_from s (start + len) = Some (drop (nat (start + len)) s)
       \<and> ReplaceRepoDesignators proj s =
           Inr (take (nat start) s
                  @ TrimPrefix (FindRepoPath proj repoName) (Path proj @ ''/'')
                  @ drop (nat (start + len)) s, True)"
proof -
  from FindRepoDesignator_range [OF find found]
  have r: "0 \<le> start" "1 \<le> len" "start + len \<le> int (length s)" by simp_all
  note sl = slices_in_range [OF r]
  from find found name known sl(2) sl(3) show ?thesis
    by (simp add: ReplaceRepoDesignators_def Let_def)
qed

text \<open>
  With \<open>repoX\<close> at \<open>/proj/repoX\<close> and the project at \<open>/proj\<close>, \<open>"@repoX/sub/path"\<close> becomes
  \<open>"repoX/sub/path"\<close>.
\<close>

theorem ReplaceRepoDesignators_splices_witness:
  "FindRepoDesignator ''@repoX/sub/path'' = Inr (0, 6)
   \<and> slice ''@repoX/sub/path'' (0 + 1) (0 + 6) = Some ''repoX''
   \<and> FindRepoPath example_project ''repoX'' = ''/proj/repoX''
   \<and> Path example_project = ''/proj''
   \<and> ReplaceRepoDesignators example_project ''@repoX/sub/path'' = Inr (''repoX/sub/path'', True)"
proof -
  have f: "FindRepoDesignator ''@repoX/sub/path'' = Inr (0, 6)"
    by (simp add: FindRepoDesignator_char)
  have n: "slice ''@repoX/sub/path'' (0 + 1) (0 + 6) = Some ''repoX''"
    by (simp add: slice_def)
  have k: "FindRepoPath example_project ''repoX'' \<noteq> ''''"
    by (simp add: example_project_def)
  have z: "(0::int) \<noteq> - 1" by simp
  from ReplaceRepoDesignators_splices [OF f z n k] f n show ?thesis
    by (simp add: example_project_def TrimPrefix_def HasPrefix_def)
qed

text \<open>
  Claim C8. \<open>ReplaceRepoDesignators\<close> returns on every input (it never panics, and it has
  no error result). When \<open>FindRepoDesignator\<close> finds no designator, or the project gives
  the empty path for the repository name, it returns its input unchanged with \<open>false\<close>.
\<close>

theorem ReplaceRepoDesignators_never_fails:
  "(\<exists>r. ReplaceRepoDesignators proj s = Inr r)
   \<and> (FindRepoDesignator s = Inr (- 1, - 1) \<longrightarrow> ReplaceRepoDesignators proj s = Inr (s, False))
   \<and> (\<forall>start len repoName.
         FindRepoDesignator s = Inr (start, len) \<and> start \<noteq> - 1
         \<and> slice s (start + 1) (start + len) = Some repoName
         \<and> FindRepoPath proj repoName = ''''
         \<longrightarrow> ReplaceRepoDesignators proj s = Inr (s, False))"
proof (intro conjI allI impI)
  obtain start len where find: "FindRepoDesignator s = Inr (start, len)"
    using FindRepoDesignator_Inr [of s] by auto
  show "\<exists>r. ReplaceRepoDesignators proj s = Inr r"
  proof (cases "start = - 1")
    case True
    with find have "ReplaceRepoDesignators proj s = Inr (s, False)"
      by (simp add: ReplaceRepoDesignators_def)
    then show ?thesis by blast
  next
    case False
    from FindRepoDesignator_range [OF find False]
    have r: "0 \<le> start" "1 \<le> len" "start + len \<le> int (length s)" by simp_all
    note sl = slices_in_range [OF r]
    from find False sl show ?thesis
      by (auto simp: ReplaceRepoDesignators_def Let_def)
  qed
next
  assume "FindRepoDesignator s = Inr (- 1, - 1)"
  then show "ReplaceRepoDesignators proj s = Inr (s, False)"
    by (simp add: ReplaceRepoDesignators_def)
next
  fix start len repoName
  assume "FindRepoDesignator s = Inr (start, len) \<and> start \<noteq> - 1
         \<and> slice s (start + 1) (start + len) = Some repoName
         \<and> FindRepoPath proj repoName = ''''"
  then show "ReplaceRepoDesignators proj s = Inr (s, False)"
    by (simp add: ReplaceRepoDesignators_def)
qed

theorem ReplaceRepoDesignators_never_fails_witness:
  "FindRepoDesignator ''no-at-sign'' = Inr (- 1, - 1)
   \<and> ReplaceRepoDesignators example_project ''no-at-sign'' = Inr (''no-at-sign'', False)
   \<and> FindRepoDesignator ''has@nosep'' = Inr (- 1, - 1)
   \<and> ReplaceRepoDesignators example_project ''has@nosep'' = Inr (''has@nosep'', False)
   \<and> FindRepoDesignator ''lib/@other/x'' = Inr (4, 6)
   \<and> slice ''lib/@other/x'' (4 + 1) (4 + 6) = Some ''other''
   \<and> FindRepoPath example_project ''other'' = ''''
   \<and> ReplaceRepoDesignators example_project ''lib/@other/x'' = Inr (''lib/@other/x'', False)"
proof -
  have f1: "FindRepoDesignator ''no-at-sign'' = Inr (- 1, - 1)"
    by (simp add: FindRepoDesignator_char)
  have f2: "FindRepoDesignator ''has@nosep'' = Inr (- 1, - 1)"
    by (simp add: FindRepoDesignator_char)
  have f3: "FindRepoDesignator ''lib/@other/x'' = Inr (4, 6)"
    by (simp add: FindRepoDesignator_char)
  have n3: "slice ''lib/@other/x'' (4 + 1) (4 + 6) = Some ''other''"
    by (simp add: slice_def)
  have u3: "FindRepoPath example_project ''other'' = ''''"
    by (simp add: example_project_def)
  have z: "(4::int) \<noteq> - 1" by simp
  from ReplaceRepoDesignators_never_fails [of example_project "''no-at-sign''"] f1
  have r1: "ReplaceRepoDesignators example_project ''no-at-sign'' = Inr (''no-at-sign'', False)"
    by blast
  from ReplaceRepoDesignators_never_fails [of example_project "''has@nosep''"] f2
  have r2: "ReplaceRepoDesignators example_project ''has@nosep'' = Inr (''has@nosep'', False)"
    by blast
  from ReplaceRepoDesignators_never_fails [of example_project "''lib/@other/x''"] f3 z n3 u3
  have r3: "ReplaceRepoDesignators example_project ''lib/@other/x'' = Inr (''lib/@other/x'', False)"
    by blast
  from f1 f2 f3 n3 u3 r1 r2 r3 show ?thesis by blast
qed

section \<open>The downloader\<close>

lemma call_TempDir_effect:
  "dl (snd (call_TempDir sys d p st)) = dl st"
  "calls (snd (call_TempDir sys d p st)) = calls st @ [TempDirCall d p]"
  by (simp_all add: call_TempDir_def split_beta)

lemma call_ShellCommand_effect:
  "dl (snd (call_ShellCommand sys cmd st)) = dl st"
  "calls (snd (call_ShellCommand sys cmd st)) = calls st @ [ShellCommandCall cmd]"
  by (simp_all add: call_ShellCommand_def split_beta)

lemma call_RemoveAll_effect:
  "dl (snd (call_RemoveAll sys path st)) = dl st"
  "calls (snd (call_RemoveAll sys path st)) = calls st @ [RemoveAllCall path]"
  by (simp_all add: call_RemoveAll_def split_beta)

lemma gitClone_effect:
  "dl (snd (gitClone sys url branch dest st)) = dl st"
  "clone_calls (snd (gitClone sys url branch dest st)) = clone_calls st + 1"
  "ShellCommandCall (''git clone -b '' @ branch @ '' '' @ url @ '' '' @ dest)
     \<in> set (calls (snd (gitClone sys url branch dest st)))"
  by (simp_all add: gitClone_def split_beta clone_calls_def
      call_ShellCommand_effect call_RemoveAll_effect split: option.split)

lemma GetRepo_hit:
  "Repos (dl st) (url @ branch) = Some dir \<Longrightarrow> GetRepo sys url branch st = ((dir, None), st)"
  by (simp add: GetRepo_def)

lemma GetRepo_miss:
  assumes "Repos (dl st) (url @ branch) = None"
    and "call_TempDir sys '''' ''newtrepo'' st = ((dir, terr), st1)"
    and "gitClone sys url branch dir st1 = (cerr, st2)"
  shows "GetRepo sys url branch st =
     (case terr of
        Some e \<Rightarrow> (('''', Some e), st1)
      | None \<Rightarrow>
          (case cerr of
             Some e \<Rightarrow> (('''', None), st2)
           | None \<Rightarrow>
               ((dir, None),
                st2\<lparr>dl := (dl st2)\<lparr>Repos := (Repos (dl st2))(url @ branch \<mapsto> dir)\<rparr>\<rparr>)))"
  using assms by (simp add: GetRepo_def split: option.split)

text \<open>
  Claim C1, at the inputs where the code departs from it. When the pair is not cached, the
  temporary directory is made and \<open>gitClone\<close> fails with an error \<open>e\<close>, then \<open>GetRepo\<close>
  returns the empty path and no error. \<open>DownloadFile\<close> therefore goes on: it copies from
  \<open>"/" + filePath\<close> and returns whatever that copy returns.
\<close>

theorem GetRepo_swallows_clone_failure:
  assumes miss: "Repos (dl st) (url @ branch) = None"
    and tmp: "call_TempDir sys '''' ''newtrepo'' st = ((dir, None), st1)"
    and clone: "gitClone sys url branch dir st1 = (Some e, st2)"
  shows "GetRepo sys url branch st = (('''', None), st2)
       \<and> DownloadFile sys url branch filePath destPath st =
           call_CopyFile sys (''/'' @ filePath) destPath st2"
proof -
  from GetRepo_miss [OF miss tmp clone]
  have g: "GetRepo sys url branch st = (('''', None), st2)" by simp
  have "DownloadFile sys url branch filePath destPath st =
          call_CopyFile sys (''/'' @ filePath) destPath st2"
    by (simp add: DownloadFile_def g split_beta split: option.split)
      (metis prod.collapse)
  with g show ?thesis by simp
qed

theorem GetRepo_swallows_clone_failure_witness:
  "Repos (dl init_state) (''https://example.org/repo.git'' @ ''master'') = None
   \<and> fst (gitClone (example_system False) ''https://example.org/repo.git'' ''master''
            ''/tmp/newtrepo''
            (snd (call_TempDir (example_system False) '''' ''newtrepo'' init_state)))
       = Some (NewtError ''exit status 128'')
   \<and> fst (GetRepo (example_system False) ''https://example.org/repo.git'' ''master'' init_state)
       = ('''', None)
   \<and> fst (DownloadFile (example_system False) ''https://example.org/repo.git'' ''master''
            ''etc/hosts'' ''/out'' init_state) = None
   \<and> last (calls (snd (DownloadFile (example_system False) ''https://example.org/repo.git''
            ''master'' ''etc/hosts'' ''/out'' init_state))) = CopyFileCall ''/etc/hosts'' ''/out''"
proof -
  let ?sys = "example_system False"
  let ?u = "''https://example.org/repo.git''"
  let ?st1 = "snd (call_TempDir ?sys '''' ''newtrepo'' init_state)"
  let ?st2 = "snd (gitClone ?sys ?u ''master'' ''/tmp/newtrepo'' ?st1)"
  have miss: "Repos (dl init_state) (?u @ ''master'') = None"
    by (simp add: init_state_def NewDownloader_def)
  have tmp: "call_TempDir ?sys '''' ''newtrepo'' init_state = ((''/tmp/newtrepo'', None), ?st1)"
    by (simp add: call_TempDir_def example_system_def init_state_def)
  have clone: "gitClone ?sys ?u ''master'' ''/tmp/newtrepo'' ?st1
                 = (Some (NewtError ''exit status 128''), ?st2)"
    by (simp add: gitClone_def call_ShellCommand_def example_system_def)
  have copy: "fst (call_CopyFile ?sys src dst st) = None
      \<and> last (calls (snd (call_CopyFile ?sys src dst st))) = CopyFileCall src dst" for src dst st
    by (simp add: call_CopyFile_def example_system_def)
  have cf: "fst (gitClone ?sys ?u ''master'' ''/tmp/newtrepo'' ?st1)
                 = Some (NewtError ''exit status 128'')"
    by (simp add: gitClone_def call_ShellCommand_def example_system_def)
  note r = GetRepo_swallows_clone_failure [OF miss tmp clone, of "''etc/hosts''" "''/out''"]
  from r have g: "fst (GetRepo ?sys ?u ''master'' init_state) = ('''', None)"
    by simp
  from r copy [of "''/etc/hosts''" "''/out''" ?st2]
  have d: "fst (DownloadFile ?sys ?u ''master'' ''etc/hosts'' ''/out'' init_state) = None"
    "last (calls (snd (DownloadFile ?sys ?u ''master'' ''etc/hosts'' ''/out'' init_state)))
       = CopyFileCall ''/etc/hosts'' ''/out''"
    by simp_all
  from miss cf g d show ?thesis by blast
qed

lemma GetRepo_recorded:
  assumes miss: "Repos (dl st) (url @ branch) = None"
    and first: "GetRepo sys url branch st = ((dir, err), st1)"
    and recorded: "Repos (dl st1) (url @ branch) \<noteq> None"
  shows "err = None"
    and "Repos (dl st1) (url @ branch) = Some dir"
    and "clone_calls st1 = clone_calls st + 1"
    and "ShellCommandCall (''git clone -b '' @ branch @ '' '' @ url @ '' '' @ dir)
           \<in> set (calls st1)"
proof -
  obtain d terr t1 where tmp: "call_TempDir sys '''' ''newtrepo'' st = ((d, terr), t1)"
    by (metis prod.collapse)
  obtain cerr t2 where clone: "gitClone sys url branch d t1 = (cerr, t2)"
    by (metis prod.collapse)
  have dl1: "dl t1 = dl st"
    using call_TempDir_effect(1) [of sys "''''" "''newtrepo''" st] tmp by simp
  have cc1: "clone_calls t1 = clone_calls st"
    using call_TempDir_effect(2) [of sys "''''" "''newtrepo''" st] tmp
    by (simp add: clone_calls_def)
  have dl2: "dl t2 = dl t1" using gitClone_effect(1) [of sys url branch d t1] clone by simp
  have cc2: "clone_calls t2 = clone_calls t1 + 1"
    using gitClone_effect(2) [of sys url branch d t1] clone by simp
  have log: "ShellCommandCall (''git clone -b '' @ branch @ '' '' @ url @ '' '' @ d)
               \<in> set (calls t2)"
    using gitClone_effect(3) [of branch url d sys t1] clone by simp
  note g = GetRepo_miss [OF miss tmp clone]
  have ok: "terr = None \<and> cerr = None"
  proof (rule ccontr)
    assume "\<not> (terr = None \<and> cerr = None)"
    then have "dl st1 = dl st"
      using g first dl1 dl2 by (auto split: option.splits)
    with miss recorded show False by simp
  qed
  with g first have res: "dir = d" "err = None"
    "st1 = t2\<lparr>dl := (dl t2)\<lparr>Repos := (Repos (dl t2))(url @ branch \<mapsto> d)\<rparr>\<rparr>"
    by simp_all
  show "err = None" by (rule res(2))
  from res show "Repos (dl st1) (url @ branch) = Some dir" by simp
  from res cc1 cc2 show "clone_calls st1 = clone_calls st + 1"
    by (simp add: clone_calls_def)
  from res log show "ShellCommandCall (''git clone -b '' @ branch @ '' '' @ url @ '' '' @ dir)
           \<in> set (calls st1)" by simp
qed

text \<open>
  Claim C3. If \<open>(url, branch)\<close> is not cached and a first \<open>GetRepo\<close> leaves it cached (the
  clone succeeded and the mapping was recorded), then the first call returned no error, a
  second call returns the same path and leaves the state as it is (it calls nothing), and
  the clone command has been run exactly once over the two calls.
\<close>

theorem GetRepo_second_call_cached:
  assumes miss: "Repos (dl st) (url @ branch) = None"
    and first: "GetRepo sys url branch st = ((dir, err), st1)"
    and recorded: "Repos (dl st1) (url @ branch) \<noteq> None"
  shows "err = None
       \<and> clone_calls st1 = clone_calls st + 1
       \<and> GetRepo sys url branch st1 = ((dir, None), st1)
       \<and> clone_calls (snd (GetRepo sys url branch st1)) = clone_calls st + 1"
proof -
  note r = GetRepo_recorded [OF miss first recorded]
  from GetRepo_hit [OF r(2)] have second: "GetRepo sys url branch st1 = ((dir, None), st1)" .
  from r(1) r(3) second show ?thesis by simp
qed

lemma example_first_call:
  "Repos (dl init_state) (url @ branch) = None"
  "GetRepo (example_system True) url branch init_state =
     ((''/tmp/newtrepo'', None),
      \<lparr>dl = \<lparr>Repos = [url @ branch \<mapsto> ''/tmp/newtrepo'']\<rparr>, world = Suc 0,
       calls = [TempDirCall '''' ''newtrepo'',
                ShellCommandCall (''git clone -b '' @ branch @ '' '' @ url @ '' /tmp/newtrepo''),
                RemoveAllCall ''/tmp/newtrepo/.git/'']\<rparr>)"
  by (simp_all add: GetRepo_def gitClone_def call_TempDir_def call_ShellCommand_def
      call_RemoveAll_def example_system_def init_state_def NewDownloader_def)

theorem GetRepo_second_call_cached_witness:
  "Repos (dl init_state) (''https://example.org/repo.git'' @ ''master'') = None
   \<and> fst (GetRepo (example_system True) ''https://example.org/repo.git'' ''master'' init_state)
       = (''/tmp/newtrepo'', None)
   \<and> fst (GetRepo (example_system True) ''https://example.org/repo.git'' ''master''
        (snd (GetRepo (example_system True) ''https://example.org/repo.git'' ''master'' init_state)))
       = (''/tmp/newtrepo'', None)
   \<and> clone_calls init_state = 0
   \<and> clone_calls (snd (GetRepo (example_system True) ''https://example.org/repo.git'' ''master''
        (snd (GetRepo (example_system True) ''https://example.org/repo.git'' ''master'' init_state))))
       = 1"
proof -
  let ?sys = "example_system True"
  let ?u = "''https://example.org/repo.git''"
  let ?st1 = "snd (GetRepo ?sys ?u ''master'' init_state)"
  note ex = example_first_call [of ?u "''master''"]
  have first: "GetRepo ?sys ?u ''master'' init_state = ((''/tmp/newtrepo'', None), ?st1)"
    by (simp add: ex(2))
  have recorded: "Repos (dl ?st1) (?u @ ''master'') \<noteq> None"
    by (simp add: ex(2))
  have zero: "clone_calls init_state = 0"
    by (simp add: clone_calls_def init_state_def)
  note r = GetRepo_second_call_cached [OF ex(1) first recorded]
  from r have a: "fst (GetRepo ?sys ?u ''master'' ?st1) = (''/tmp/newtrepo'', None)" by simp
  from r zero have b: "clone_calls (snd (GetRepo ?sys ?u ''master'' ?st1)) = 1" by simp
  have c: "fst (GetRepo ?sys ?u ''master'' init_state) = (''/tmp/newtrepo'', None)"
    by (simp add: ex(2))
  from ex(1) a b c zero show ?thesis by blast
qed

text \<open>
  Claim C10. The key of the cache is \<open>url + branch\<close>. If \<open>url1 + branch1 = url2 + branch2\<close>
  and \<open>GetRepo url1 branch1\<close> has cloned and recorded its directory, then
  \<open>GetRepo url2 branch2\<close> returns that directory, the one the clone command was run for
  with \<open>url1\<close> and \<open>branch1\<close>, and calls nothing.
\<close>

theorem GetRepo_key_aliasing:
  assumes same_key: "url1 @ branch1 = url2 @ branch2"
    and miss: "Repos (dl st) (url1 @ branch1) = None"
    and first: "GetRepo sys url1 branch1 st = ((dir, err), st1)"
    and recorded: "Repos (dl st1) (url1 @ branch1) \<noteq> None"
  shows "ShellCommandCall (''git clone -b '' @ branch1 @ '' '' @ url1 @ '' '' @ dir)
           \<in> set (calls st1)
       \<and> GetRepo sys url2 branch2 st1 = ((dir, None), st1)"
proof -
  note r = GetRepo_recorded [OF miss first recorded]
  from r(2) same_key have "Repos (dl st1) (url2 @ branch2) = Some dir" by simp
  from GetRepo_hit [OF this] r(4) show ?thesis by simp
qed

theorem GetRepo_key_aliasing_witness:
  "(''ab'', ''c'') \<noteq> (''a'', ''bc'') \<and> ''ab'' @ ''c'' = ''a'' @ ''bc''
   \<and> Repos (dl init_state) (''ab'' @ ''c'') = None
   \<and> fst (GetRepo (example_system True) ''ab'' ''c'' init_state) = (''/tmp/newtrepo'', None)
   \<and> calls (snd (GetRepo (example_system True) ''ab'' ''c'' init_state)) =
       [TempDirCall '''' ''newtrepo'',
        ShellCommandCall ''git clone -b c ab /tmp/newtrepo'',
        RemoveAllCall ''/tmp/newtrepo/.git/'']
   \<and> GetRepo (example_system True) ''a'' ''bc''
        (snd (GetRepo (example_system True) ''ab'' ''c'' init_state))
       = ((''/tmp/newtrepo'', None), snd (GetRepo (example_system True) ''ab'' ''c'' init_state))"
proof -
  let ?sys = "example_system True"
  let ?st1 = "snd (GetRepo ?sys ''ab'' ''c'' init_state)"
  note ex = example_first_call [of "''ab''" "''c''"]
  have same_key: "''ab'' @ ''c'' = ''a'' @ ''bc''" by simp
  have differ: "(''ab'', ''c'') \<noteq> (''a'', ''bc'')" by simp
  have first: "GetRepo ?sys ''ab'' ''c'' init_state = ((''/tmp/newtrepo'', None), ?st1)"
    by (simp add: ex(2))
  have recorded: "Repos (dl ?st1) (''ab'' @ ''c'') \<noteq> None"
    by (simp add: ex(2))
  have log: "calls ?st1 =
       [TempDirCall '''' ''newtrepo'',
        ShellCommandCall ''git clone -b c ab /tmp/newtrepo'',
        RemoveAllCall ''/tmp/newtrepo/.git/'']"
    by (simp add: ex(2))
  have c: "fst (GetRepo ?sys ''ab'' ''c'' init_state) = (''/tmp/newtrepo'', None)"
    by (simp add: ex(2))
  from GetRepo_key_aliasing [OF same_key ex(1) first recorded]
  have second: "GetRepo ?sys ''a'' ''bc'' ?st1 = ((''/tmp/newtrepo'', None), ?st1)" by blast
  from differ same_key ex(1) c log second show ?thesis by blast
qed

lemma GetRepo_miss_clones:
  assumes "Repos (dl st) (url @ branch) = None"
    and "snd (fst (call_TempDir sys '''' ''newtrepo'' st)) = None"
  shows "clone_calls (snd (GetRepo sys url branch st)) = clone_calls st + 1"
proof -
  obtain d terr t1 where tmp: "call_TempDir sys '''' ''newtrepo'' st = ((d, terr), t1)"
    by (metis prod.collapse)
  obtain cerr t2 where clone: "gitClone sys url branch d t1 = (cerr, t2)"
    by (metis prod.collapse)
  have cc1: "clone_calls t1 = clone_calls st"
    using call_TempDir_effect(2) [of sys "''''" "''newtrepo''" st] tmp
    by (simp add: clone_calls_def)
  have cc2: "clone_calls t2 = clone_calls t1 + 1"
    using gitClone_effect(2) [of sys url branch d t1] clone by simp
  from assms(2) tmp have "terr = None" by simp
  with GetRepo_miss [OF assms(1) tmp clone] cc1 cc2 show ?thesis
    by (simp add: clone_calls_def split: option.split)
qed

lemma GetRepo_miss_no_tmp:
  assumes "Repos (dl st) (url @ branch) = None"
    and "snd (fst (call_TempDir sys '''' ''newtrepo'' st)) = Some e"
  shows "fst (GetRepo sys url branch st) = ('''', Some e)"
proof -
  obtain d terr t1 where tmp: "call_TempDir sys '''' ''newtrepo'' st = ((d, terr), t1)"
    by (metis prod.collapse)
  obtain cerr t2 where clone: "gitClone sys url branch d t1 = (cerr, t2)"
    by (metis prod.collapse)
  from assms(2) tmp have "terr = Some e" by simp
  with GetRepo_miss [OF assms(1) tmp clone] show ?thesis by simp
qed

text \<open>
  Claim C4. If \<open>(url, branch)\<close> is not cached and making the temporary directory fails or
  \<open>gitClone\<close> fails, then \<open>GetRepo\<close> leaves the downloader as it was, with no entry for
  \<open>(url, branch)\<close>. The next \<open>GetRepo url branch\<close> does not answer from the cache: it
  runs the clone command again when it can make a temporary directory, and returns the
  error of \<open>TempDir\<close> when it cannot.
\<close>

theorem GetRepo_failure_keeps_cache:
  assumes miss: "Repos (dl st) (url @ branch) = None"
    and tmp: "call_TempDir sys '''' ''newtrepo'' st = ((dir, terr), st1)"
    and clone: "gitClone sys url branch dir st1 = (cerr, st2)"
    and fails: "terr \<noteq> None \<or> cerr \<noteq> None"
  shows "dl (snd (GetRepo sys url branch st)) = dl st
       \<and> Repos (dl (snd (GetRepo sys url branch st))) (url @ branch) = None
       \<and> (snd (fst (call_TempDir sys '''' ''newtrepo'' (snd (GetRepo sys url branch st)))) = None
            \<longrightarrow> clone_calls (snd (GetRepo sys url branch (snd (GetRepo sys url branch st))))
                  = clone_calls (snd (GetRepo sys url branch st)) + 1)
       \<and> (\<forall>e. snd (fst (call_TempDir sys '''' ''newtrepo'' (snd (GetRepo sys url branch st))))
                 = Some e
            \<longrightarrow> fst (GetRepo sys url branch (snd (GetRepo sys url branch st))) = ('''', Some e))"
proof -
  let ?st' = "snd (GetRepo sys url branch st)"
  have dl1: "dl st1 = dl st"
    using call_TempDir_effect(1) [of sys "''''" "''newtrepo''" st] tmp by simp
  have dl2: "dl st2 = dl st1" using gitClone_effect(1) [of sys url branch dir st1] clone by simp
  from GetRepo_miss [OF miss tmp clone] fails dl1 dl2
  have same: "dl ?st' = dl st" by (auto split: option.splits)
  with miss have miss': "Repos (dl ?st') (url @ branch) = None" by simp
  from same miss' GetRepo_miss_clones [OF miss'] GetRepo_miss_no_tmp [OF miss']
  show ?thesis by blast
qed

theorem GetRepo_failure_keeps_cache_witness:
  "Repos (dl init_state) (''u'' @ ''b'') = None
   \<and> fst (gitClone (example_system False) ''u'' ''b'' ''/tmp/newtrepo''
            (snd (call_TempDir (example_system False) '''' ''newtrepo'' init_state)))
       = Some (NewtError ''exit status 128'')
   \<and> dl (snd (GetRepo (example_system False) ''u'' ''b'' init_state)) = dl init_state
   \<and> clone_calls (snd (GetRepo (example_system False) ''u'' ''b'' init_state)) = 1
   \<and> clone_calls (snd (GetRepo (example_system False) ''u'' ''b''
        (snd (GetRepo (example_system False) ''u'' ''b'' init_state)))) = 2
   \<and> snd (fst (call_TempDir no_tmp_system '''' ''newtrepo'' init_state))
       = Some (OSError ''permission denied'')
   \<and> dl (snd (GetRepo no_tmp_system ''u'' ''b'' init_state)) = dl init_state
   \<and> fst (GetRepo no_tmp_system ''u'' ''b''
        (snd (GetRepo no_tmp_system ''u'' ''b'' init_state)))
       = ('''', Some (OSError ''permission denied''))"
proof -
  let ?sys = "example_system False"
  let ?st1 = "snd (call_TempDir ?sys '''' ''newtrepo'' init_state)"
  let ?st2 = "snd (gitClone ?sys ''u'' ''b'' ''/tmp/newtrepo'' ?st1)"
  let ?st' = "snd (GetRepo ?sys ''u'' ''b'' init_state)"
  have miss: "Repos (dl init_state) (''u'' @ ''b'') = None"
    by (simp add: init_state_def NewDownloader_def)
  have tmp: "call_TempDir ?sys '''' ''newtrepo'' init_state = ((''/tmp/newtrepo'', None), ?st1)"
    by (simp add: call_TempDir_def example_system_def init_state_def)
  have clone: "gitClone ?sys ''u'' ''b'' ''/tmp/newtrepo'' ?st1
                 = (Some (NewtError ''exit status 128''), ?st2)"
    by (simp add: gitClone_def call_ShellCommand_def example_system_def)
  have cf: "fst (gitClone ?sys ''u'' ''b'' ''/tmp/newtrepo'' ?st1)
                 = Some (NewtError ''exit status 128'')"
    by (simp add: gitClone_def call_ShellCommand_def example_system_def)
  have fails: "(None :: error option) \<noteq> None \<or> Some (NewtError ''exit status 128'') \<noteq> None"
    by simp
  have tmp_ok: "snd (fst (call_TempDir ?sys '''' ''newtrepo'' st)) = None" for st
    by (simp add: call_TempDir_def example_system_def)
  have one: "clone_calls ?st' = 1"
    using GetRepo_miss_clones [OF miss tmp_ok]
    by (simp add: clone_calls_def init_state_def)
  note r = GetRepo_failure_keeps_cache [OF miss tmp clone fails]
  from r have a: "dl ?st' = dl init_state" by blast
  from r tmp_ok [of ?st'] one have b: "clone_calls (snd (GetRepo ?sys ''u'' ''b'' ?st')) = 2"
    by simp
  let ?nt1 = "snd (call_TempDir no_tmp_system '''' ''newtrepo'' init_state)"
  let ?nt' = "snd (GetRepo no_tmp_system ''u'' ''b'' init_state)"
  have ntmp: "call_TempDir no_tmp_system '''' ''newtrepo'' init_state
                = (('''', Some (OSError ''permission denied'')), ?nt1)"
    by (simp add: call_TempDir_def no_tmp_system_def)
  have nclone: "gitClone no_tmp_system ''u'' ''b'' '''' ?nt1
                = (fst (gitClone no_tmp_system ''u'' ''b'' '''' ?nt1),
                   snd (gitClone no_tmp_system ''u'' ''b'' '''' ?nt1))"
    by simp
  have nfails: "Some (OSError ''permission denied'') \<noteq> None
                  \<or> fst (gitClone no_tmp_system ''u'' ''b'' '''' ?nt1) \<noteq> None"
    by simp
  have ntmp_err: "snd (fst (call_TempDir no_tmp_system '''' ''newtrepo'' st))
                    = Some (OSError ''permission denied'')" for st
    by (simp add: call_TempDir_def no_tmp_system_def)
  note nr = GetRepo_failure_keeps_cache [OF miss ntmp nclone nfails]
  from nr have c: "dl ?nt' = dl init_state" by blast
  from nr ntmp_err [of ?nt']
  have d: "fst (GetRepo no_tmp_system ''u'' ''b'' ?nt') = ('''', Some (OSError ''permission denied''))"
    by blast
  from miss cf a one b ntmp_err [of init_state] c d show ?thesis by blast
qed

end
